theory Spec2Isabelle
  imports Main "HOL-Library.Sublist"
begin

section \<open>Python values and string operations used by the migrator\<close>

text \<open>
  Python strings are modelled as \<open>string\<close>, read as sequences of code points below 256
  (Latin-1). On that range \<open>str.lower\<close> maps \<open>A\<close>..\<open>Z\<close> and the accented capitals
  U+00C0..U+00DE (without the multiplication sign U+00D7) to the code point 32 above and
  leaves every other character alone.
\<close>

definition lower_char :: "char \<Rightarrow> char" where
  "lower_char c =
     (let n = (of_char c :: nat)
      in if (65 \<le> n \<and> n \<le> 90) \<or> (192 \<le> n \<and> n \<le> 222 \<and> n \<noteq> 215)
         then char_of (n + 32) else c)"

definition py_lower :: "string \<Rightarrow> string" where
  "py_lower s = map lower_char s"

text \<open>
  \<open>s.split(sep)\<close> for a non-empty separator: the pieces between the leftmost,
  non-overlapping occurrences of \<open>sep\<close>; never an empty list. The accumulator holds the
  current piece reversed. Every separator of the source is a non-empty literal.
\<close>

fun split_aux :: "string \<Rightarrow> string \<Rightarrow> string \<Rightarrow> string list" where
  "split_aux sep acc [] = [rev acc]"
| "split_aux sep acc (c # cs) =
     (if prefix sep (c # cs) then rev acc # split_aux sep [] (drop (length sep - 1) cs)
      else split_aux sep (c # acc) cs)"

definition py_split :: "string \<Rightarrow> string \<Rightarrow> string list" where
  "py_split s sep = split_aux sep [] s"

text \<open>\<open>sub in s\<close> on strings: \<open>sub\<close> occurs in \<open>s\<close> as a contiguous substring.\<close>

fun py_in :: "string \<Rightarrow> string \<Rightarrow> bool" where
  "py_in sub [] = (sub = [])"
| "py_in sub (c # cs) = (prefix sub (c # cs) \<or> py_in sub cs)"


text \<open>\<open>s.rstrip('/')\<close>: drop every trailing slash.\<close>

definition py_rstrip_slash :: "string \<Rightarrow> string" where
  "py_rstrip_slash s = rev (dropWhile (\<lambda>c. c = CHR ''/'') (rev s))"

section \<open>Content types\<close>

definition content_types :: "(string \<times> string) list" where
  "content_types =
     [(''jpg'', ''image/jpeg''),
      (''jpeg'', ''image/jpeg''),
      (''png'', ''image/png''),
      (''gif'', ''image/gif''),
      (''webp'', ''image/webp''),
      (''pdf'', ''application/pdf'')]"

text \<open>
  \<open>get_content_type\<close>: \<open>ext = filename.lower().split('.')[-1]\<close>, then
  \<open>content_types.get(ext, 'application/octet-stream')\<close>. The split is never empty, so
  the index \<open>-1\<close> is its last piece.
\<close>

definition get_content_type :: "string \<Rightarrow> string" where
  "get_content_type filename =
     (let ext = last (py_split (py_lower filename) ''.'')
      in case map_of content_types ext of
           Some t \<Rightarrow> t
         | None \<Rightarrow> ''application/octet-stream'')"

section \<open>Decoded JSON values and the Python operations on them\<close>

text \<open>
  What \<open>response.json()\<close> returns: \<open>None\<close>, booleans, integers, strings, lists and
  dictionaries (an association list; a decoded dictionary has each key once). JSON
  numbers with a fraction are left out: the migrator only tests and forwards values.
\<close>

datatype json =
    JNull
  | JBool bool
  | JInt int
  | JStr string
  | JList "json list"
  | JDict "(string \<times> json) list"

text \<open>
  The exceptions that can arise. \<open>RequestException\<close> stands for whatever the HTTP
  session raises itself (connection errors, timeouts, exhausted retries, a malformed URL),
  \<open>HTTPError\<close> for \<open>raise_for_status\<close>, \<open>JSONDecodeError\<close> and \<open>ParseError\<close> for
  the two decoders.
\<close>

datatype exn =
    KeyError
  | IndexError
  | TypeError
  | AttributeError
  | ValueError
  | HTTPError
  | RequestException
  | JSONDecodeError
  | ParseError

definition bind_exn :: "exn + 'a \<Rightarrow> ('a \<Rightarrow> exn + 'b) \<Rightarrow> exn + 'b" where
  "bind_exn x f = (case x of Inl e \<Rightarrow> Inl e | Inr v \<Rightarrow> f v)"

text \<open>Truth value of a decoded value, as \<open>if x:\<close> tests it.\<close>

fun truthy :: "json \<Rightarrow> bool" where
  "truthy JNull = False"
| "truthy (JBool b) = b"
| "truthy (JInt i) = (i \<noteq> 0)"
| "truthy (JStr s) = (s \<noteq> [])"
| "truthy (JList xs) = (xs \<noteq> [])"
| "truthy (JDict kvs) = (kvs \<noteq> [])"

text \<open>\<open>obj[key]\<close> for a string key.\<close>

fun getitem :: "json \<Rightarrow> string \<Rightarrow> exn + json" where
  "getitem (JDict kvs) k = (case map_of kvs k of Some v \<Rightarrow> Inr v | None \<Rightarrow> Inl KeyError)"
| "getitem _ k = Inl TypeError"

text \<open>\<open>obj[0]\<close>. A decoded dictionary has string keys only, so \<open>0\<close> is never a key.\<close>

fun getitem0 :: "json \<Rightarrow> exn + json" where
  "getitem0 (JList xs) = (case xs of [] \<Rightarrow> Inl IndexError | x # _ \<Rightarrow> Inr x)"
| "getitem0 (JStr s) = (case s of [] \<Rightarrow> Inl IndexError | c # _ \<Rightarrow> Inr (JStr [c]))"
| "getitem0 (JDict kvs) = Inl KeyError"
| "getitem0 _ = Inl TypeError"

text \<open>\<open>obj.get(key, default)\<close>: only dictionaries have the method.\<close>

fun py_get :: "json \<Rightarrow> string \<Rightarrow> json \<Rightarrow> exn + json" where
  "py_get (JDict kvs) k d = Inr (case map_of kvs k of Some v \<Rightarrow> v | None \<Rightarrow> d)"
| "py_get _ k d = Inl AttributeError"

text \<open>\<open>key in obj\<close> for a string key.\<close>

fun py_contains :: "json \<Rightarrow> string \<Rightarrow> exn + bool" where
  "py_contains (JDict kvs) k = Inr (k \<in> set (map fst kvs))"
| "py_contains (JList xs) k = Inr (JStr k \<in> set xs)"
| "py_contains (JStr s) k = Inr (py_in k s)"
| "py_contains _ k = Inl TypeError"

text \<open>The elements \<open>list.extend(obj)\<close> appends: iteration over a decoded value.\<close>

fun py_iter :: "json \<Rightarrow> exn + json list" where
  "py_iter (JList xs) = Inr xs"
| "py_iter (JDict kvs) = Inr (map (\<lambda>kv. JStr (fst kv)) kvs)"
| "py_iter (JStr s) = Inr (map (\<lambda>c. JStr [c]) s)"
| "py_iter _ = Inl TypeError"

text \<open>\<open>xs[-k]\<close> for \<open>k > 0\<close>.\<close>

definition index_from_end :: "'a list \<Rightarrow> nat \<Rightarrow> exn + 'a" where
  "index_from_end xs k =
     (if 0 < k \<and> k \<le> length xs then Inr (xs ! (length xs - k)) else Inl IndexError)"

section \<open>Parsed index documents\<close>

text \<open>
  An element as \<open>xml.etree.ElementTree\<close> presents it: tag, text (\<open>None\<close> when the element
  has none) and children. \<open>findall('.//{ns}loc')\<close> lists the descendants of the root
  with that tag in document order.
\<close>

datatype xml = Element (elem_tag: string) (elem_text: "string option") (elem_children: "xml list")




section \<open>Requests, responses and the event trace\<close>

text \<open>
  A URL is a string, or a prefix followed by \<open>str(value)\<close> of a decoded value, which is
  kept symbolic (the f-strings ending in \<open>{post_id}\<close>).
\<close>

datatype meth = GET | POST

datatype url = Url string | UrlId string json

datatype body = NoBody | JsonBody json | DataBody string

record request =
  req_method :: meth
  req_url :: url
  req_params :: "(string \<times> json) list"
  req_auth :: "(string \<times> string) option"
  req_headers :: "(string \<times> string) list"
  req_body :: body

text \<open>
  A response: status, body bytes, what \<open>response.json()\<close> gives (a value or the
  decoder's exception) and what \<open>ET.fromstring(response.content)\<close> gives.
\<close>

record response =
  status_code :: int
  content :: string
  json_result :: "exn + json"
  xml_result :: "exn + xml"

text \<open>
  Everything the migrator does to the outside world is appended to a trace: the entry
  into each method with its arguments, each request handed to the session, each
  \<open>time.sleep\<close> and each console or progress message. Progress-bar bookkeeping
  (\<open>add_task\<close>, \<open>update\<close>) is presentation only and is not recorded.
\<close>

datatype call =
    Get_post_by_url string
  | Get_all_sitemaps
  | Create_post json
  | Get_media string
  | Upload_media "string option" string
  | Set_featured_image json json
  | Handle_featured_image json json
  | Get_sitemap_urls
  | Get_all_posts_via_api
  | Migrate_content

datatype logmsg =
    Warn_fetch_post string exn
  | Error_creating_post exn
  | Warn_download_media string exn
  | Error_uploading_media exn
  | Warn_set_featured_image exn
  | Downloading_media string
  | Uploading_media string
  | Warn_featured_image exn
  | No_sitemaps_found
  | Warn_sitemap string exn
  | Warn_fetching_page int exn
  | Found_in_sitemaps nat
  | Processing string
  | Skipping string
  | Error_migrating_url string exn
  | Falling_back
  | No_posts_found
  | Found_via_api nat
  | Migrating json
  | Error_migrating_post json exn

datatype event =
    Call call
  | Http request
  | Sleep nat
  | Log logmsg

section \<open>The migrator\<close>

text \<open>
  \<open>session\<close> is \<open>self.session\<close> with its retrying adapters mounted: given the trace so
  far and a request it yields the final outcome of the request, a response or the
  exception the session raises. The retry loop itself is library code behind this
  function.
\<close>

record migrator =
  source_url :: string
  destination_url :: string
  auth :: "string \<times> string"
  session :: "event list \<Rightarrow> request \<Rightarrow> exn + response"

definition WordPressMigrator ::
  "string \<Rightarrow> string \<Rightarrow> string \<Rightarrow> string \<Rightarrow> (event list \<Rightarrow> request \<Rightarrow> exn + response)
     \<Rightarrow> migrator" where
  "WordPressMigrator src dst username app_password transport =
     \<lparr>source_url = py_rstrip_slash src,
      destination_url = py_rstrip_slash dst,
      auth = (username, app_password),
      session = transport\<rparr>"

definition get_request :: "url \<Rightarrow> (string \<times> json) list \<Rightarrow> request" where
  "get_request u ps =
     \<lparr>req_method = GET, req_url = u, req_params = ps, req_auth = None,
      req_headers = [], req_body = NoBody\<rparr>"

definition post_request ::
  "migrator \<Rightarrow> url \<Rightarrow> (string \<times> string) list \<Rightarrow> body \<Rightarrow> request" where
  "post_request self u hs b =
     \<lparr>req_method = POST, req_url = u, req_params = [], req_auth = Some (auth self),
      req_headers = hs, req_body = b\<rparr>"

definition session_get ::
  "migrator \<Rightarrow> url \<Rightarrow> (string \<times> json) list \<Rightarrow> event list
     \<Rightarrow> (exn + response) \<times> event list" where
  "session_get self u ps tr =
     (session self tr (get_request u ps), tr @ [Http (get_request u ps)])"

definition session_post ::
  "migrator \<Rightarrow> url \<Rightarrow> (string \<times> string) list \<Rightarrow> body \<Rightarrow> event list
     \<Rightarrow> (exn + response) \<times> event list" where
  "session_post self u hs b tr =
     (session self tr (post_request self u hs b), tr @ [Http (post_request self u hs b)])"

definition raise_for_status :: "response \<Rightarrow> exn + unit" where
  "raise_for_status r =
     (if 400 \<le> status_code r \<and> status_code r < 600 then Inl HTTPError else Inr ())"

subsection \<open>Resolving a URL: \<open>get_post_by_url\<close>\<close>





subsection \<open>Probing the well-known index paths: \<open>get_all_sitemaps\<close>\<close>




subsection \<open>Creating the destination record: \<open>create_post\<close>\<close>

text \<open>The dictionary literal \<open>new_post\<close>; its entries are evaluated in order.\<close>

definition new_post_payload :: "json \<Rightarrow> exn + json" where
  "new_post_payload post_data =
     bind_exn (bind_exn (getitem post_data ''title'') (\<lambda>t. getitem t ''rendered'')) (\<lambda>title.
     bind_exn (bind_exn (getitem post_data ''content'') (\<lambda>c. getitem c ''rendered'')) (\<lambda>cont.
     bind_exn (getitem post_data ''slug'') (\<lambda>slug.
     bind_exn (bind_exn (py_get post_data ''excerpt'' (JDict []))
                 (\<lambda>x. py_get x ''rendered'' (JStr []))) (\<lambda>excerpt.
     bind_exn (py_get post_data ''categories'' (JList [])) (\<lambda>categories.
     bind_exn (py_get post_data ''tags'' (JList [])) (\<lambda>tags.
     bind_exn (py_get post_data ''meta'' (JDict [])) (\<lambda>meta.
     bind_exn (py_get post_data ''date'' JNull) (\<lambda>date.
     bind_exn (py_get post_data ''modified'' JNull) (\<lambda>modified.
     Inr (JDict
       [(''title'', title), (''content'', cont), (''status'', JStr ''publish''),
        (''slug'', slug), (''excerpt'', excerpt), (''categories'', categories),
        (''tags'', tags), (''meta'', meta), (''date'', date),
        (''modified'', modified)]))))))))))"

definition create_post_body ::
  "migrator \<Rightarrow> json \<Rightarrow> event list \<Rightarrow> (exn + json) \<times> event list" where
  "create_post_body self post_data tr =
     (case new_post_payload post_data of
        Inl e \<Rightarrow> (Inl e, tr)
      | Inr new_post \<Rightarrow>
          (case session_post self (Url (destination_url self @ ''/wp-json/wp/v2/posts''))
                  [(''Content-Type'', ''application/json'')] (JsonBody new_post) tr of
             (Inl e, tr1) \<Rightarrow> (Inl e, tr1)
           | (Inr r, tr1) \<Rightarrow>
               (case raise_for_status r of
                  Inl e \<Rightarrow> (Inl e, tr1)
                | Inr _ \<Rightarrow> (json_result r, tr1))))"

text \<open>The handler logs and re-raises.\<close>

definition create_post :: "migrator \<Rightarrow> json \<Rightarrow> event list \<Rightarrow> (exn + json) \<times> event list" where
  "create_post self post_data tr =
     (case create_post_body self post_data (tr @ [Call (Create_post post_data)]) of
        (Inl e, tr1) \<Rightarrow> (Inl e, tr1 @ [Log (Error_creating_post e)])
      | (Inr v, tr1) \<Rightarrow> (Inr v, tr1))"

subsection \<open>Media: \<open>get_media\<close>, \<open>upload_media\<close>, \<open>set_featured_image\<close>\<close>

text \<open>\<open>get_media\<close> returns the body bytes, or \<open>None\<close> after logging a warning.\<close>

definition get_media :: "migrator \<Rightarrow> string \<Rightarrow> event list \<Rightarrow> string option \<times> event list" where
  "get_media self media_url tr =
     (case session_get self (Url media_url) [] (tr @ [Call (Get_media media_url)]) of
        (Inl e, tr1) \<Rightarrow> (None, tr1 @ [Log (Warn_download_media media_url e)])
      | (Inr r, tr1) \<Rightarrow>
          (case raise_for_status r of
             Inl e \<Rightarrow> (None, tr1 @ [Log (Warn_download_media media_url e)])
           | Inr _ \<Rightarrow> (Some (content r), tr1)))"

text \<open>
  The \<open>try\<close> body of \<open>upload_media\<close>: \<open>if not media_content\<close> holds for \<open>None\<close> and for
  the empty byte string.
\<close>

definition upload_media_body ::
  "migrator \<Rightarrow> string option \<Rightarrow> string \<Rightarrow> event list \<Rightarrow> (exn + json) \<times> event list" where
  "upload_media_body self media_content filename tr =
     (case media_content of
        None \<Rightarrow> (Inl ValueError, tr)
      | Some bytes \<Rightarrow>
          if bytes = [] then (Inl ValueError, tr)
          else (case session_post self (Url (destination_url self @ ''/wp-json/wp/v2/media''))
                       [(''Content-Type'', get_content_type filename),
                        (''Content-Disposition'', ''attachment; filename='' @ filename)]
                       (DataBody bytes) tr of
                  (Inl e, tr1) \<Rightarrow> (Inl e, tr1)
                | (Inr r, tr1) \<Rightarrow>
                    (case raise_for_status r of
                       Inl e \<Rightarrow> (Inl e, tr1)
                     | Inr _ \<Rightarrow> (json_result r, tr1))))"

definition upload_media ::
  "migrator \<Rightarrow> string option \<Rightarrow> string \<Rightarrow> event list \<Rightarrow> (exn + json) \<times> event list" where
  "upload_media self media_content filename tr =
     (case upload_media_body self media_content filename
             (tr @ [Call (Upload_media media_content filename)]) of
        (Inl e, tr1) \<Rightarrow> (Inl e, tr1 @ [Log (Error_uploading_media e)])
      | (Inr v, tr1) \<Rightarrow> (Inr v, tr1))"

text \<open>\<open>set_featured_image\<close> swallows every exception and returns \<open>None\<close> then.\<close>

definition set_featured_image ::
  "migrator \<Rightarrow> json \<Rightarrow> json \<Rightarrow> event list \<Rightarrow> json \<times> event list" where
  "set_featured_image self post_id media_id tr =
     (case session_post self (UrlId (destination_url self @ ''/wp-json/wp/v2/posts/'') post_id)
             [] (JsonBody (JDict [(''featured_media'', media_id)]))
             (tr @ [Call (Set_featured_image post_id media_id)]) of
        (Inl e, tr1) \<Rightarrow> (JNull, tr1 @ [Log (Warn_set_featured_image e)])
      | (Inr r, tr1) \<Rightarrow>
          (case raise_for_status r of
             Inl e \<Rightarrow> (JNull, tr1 @ [Log (Warn_set_featured_image e)])
           | Inr _ \<Rightarrow>
               (case json_result r of
                  Inl e \<Rightarrow> (JNull, tr1 @ [Log (Warn_set_featured_image e)])
                | Inr v \<Rightarrow> (v, tr1))))"

subsection \<open>Featured image: the two definitions of \<open>handle_featured_image\<close>\<close>

text \<open>
  The class body defines \<open>handle_featured_image\<close> twice. A later \<open>def\<close> in a class body
  rebinds the name, so the method every caller reaches is the second one (after
  \<open>migrate_content\<close>); the first one is never called. Both are modelled:
  \<open>handle_featured_image_first\<close> is the earlier definition and
  \<open>handle_featured_image\<close> the later, effective one.
\<close>

text \<open>
  The test \<open>'_embedded' in post and 'wp:featuredmedia' in post['_embedded']\<close> that
  both share.
\<close>

definition has_featured_media :: "json \<Rightarrow> exn + bool" where
  "has_featured_media post =
     bind_exn (py_contains post ''_embedded'') (\<lambda>b.
       if b then bind_exn (getitem post ''_embedded'') (\<lambda>emb. py_contains emb ''wp:featuredmedia'')
       else Inr False)"

text \<open>\<open>post['_embedded']['wp:featuredmedia'][0]\<close>\<close>

definition featured_media_info :: "json \<Rightarrow> exn + json" where
  "featured_media_info post =
     bind_exn (getitem post ''_embedded'') (\<lambda>emb.
     bind_exn (getitem emb ''wp:featuredmedia'') getitem0)"

text \<open>\<open>media_url.split('/')[-1]\<close>: only a string has \<open>split\<close>.\<close>

definition media_filename :: "json \<Rightarrow> exn + string \<times> string" where
  "media_filename media_url =
     (case media_url of
        JStr u \<Rightarrow> bind_exn (index_from_end (py_split u ''/'') 1) (\<lambda>f. Inr (u, f))
      | _ \<Rightarrow> Inl AttributeError)"

text \<open>The earlier definition: it tests each intermediate result before going on.\<close>

definition handle_featured_image_first_body ::
  "migrator \<Rightarrow> json \<Rightarrow> json \<Rightarrow> event list \<Rightarrow> (exn + unit) \<times> event list" where
  "handle_featured_image_first_body self post new_post_id tr =
     (case has_featured_media post of
        Inl e \<Rightarrow> (Inl e, tr)
      | Inr False \<Rightarrow> (Inr (), tr)
      | Inr True \<Rightarrow>
          (case bind_exn (featured_media_info post) (\<lambda>info. py_get info ''source_url'' JNull) of
             Inl e \<Rightarrow> (Inl e, tr)
           | Inr media_url \<Rightarrow>
               if \<not> truthy media_url then (Inr (), tr)
               else (case media_filename media_url of
                       Inl e \<Rightarrow> (Inl e, tr)
                     | Inr (u, filename) \<Rightarrow>
                         (case get_media self u (tr @ [Log (Downloading_media filename)]) of
                            (None, tr1) \<Rightarrow> (Inr (), tr1)
                          | (Some bytes, tr1) \<Rightarrow>
                              if bytes = [] then (Inr (), tr1)
                              else (case upload_media self (Some bytes) filename
                                           (tr1 @ [Log (Uploading_media filename)]) of
                                      (Inl e, tr2) \<Rightarrow> (Inl e, tr2)
                                    | (Inr uploaded_media, tr2) \<Rightarrow>
                                        if truthy uploaded_media
                                        then (case getitem uploaded_media ''id'' of
                                                Inl e \<Rightarrow> (Inl e, tr2)
                                              | Inr media_id \<Rightarrow>
                                                  (Inr (), snd (set_featured_image self new_post_id
                                                                  media_id tr2)))
                                        else (Inr (), tr2))))))"

definition handle_featured_image_first ::
  "migrator \<Rightarrow> json \<Rightarrow> json \<Rightarrow> event list \<Rightarrow> event list" where
  "handle_featured_image_first self post new_post_id tr =
     (case handle_featured_image_first_body self post new_post_id
             (tr @ [Call (Handle_featured_image post new_post_id)]) of
        (Inl e, tr1) \<Rightarrow> tr1 @ [Log (Warn_featured_image e)]
      | (Inr _, tr1) \<Rightarrow> tr1)"

text \<open>
  The later, effective definition: no test of the source URL, of the downloaded bytes or
  of the upload result.
\<close>

definition handle_featured_image_body ::
  "migrator \<Rightarrow> json \<Rightarrow> json \<Rightarrow> event list \<Rightarrow> (exn + unit) \<times> event list" where
  "handle_featured_image_body self post new_post_id tr =
     (case has_featured_media post of
        Inl e \<Rightarrow> (Inl e, tr)
      | Inr False \<Rightarrow> (Inr (), tr)
      | Inr True \<Rightarrow>
          (case bind_exn (bind_exn (featured_media_info post) (\<lambda>info. getitem info ''source_url''))
                  media_filename of
             Inl e \<Rightarrow> (Inl e, tr)
           | Inr (u, filename) \<Rightarrow>
               (case get_media self u (tr @ [Log (Downloading_media filename)]) of
                  (media_content, tr1) \<Rightarrow>
                    (case upload_media self media_content filename
                            (tr1 @ [Log (Uploading_media filename)]) of
                       (Inl e, tr2) \<Rightarrow> (Inl e, tr2)
                     | (Inr uploaded_media, tr2) \<Rightarrow>
                         (case getitem uploaded_media ''id'' of
                            Inl e \<Rightarrow> (Inl e, tr2)
                          | Inr media_id \<Rightarrow>
                              (Inr (), snd (set_featured_image self new_post_id media_id tr2)))))))"

definition handle_featured_image ::
  "migrator \<Rightarrow> json \<Rightarrow> json \<Rightarrow> event list \<Rightarrow> event list" where
  "handle_featured_image self post new_post_id tr =
     (case handle_featured_image_body self post new_post_id
             (tr @ [Call (Handle_featured_image post new_post_id)]) of
        (Inl e, tr1) \<Rightarrow> tr1 @ [Log (Warn_featured_image e)]
      | (Inr _, tr1) \<Rightarrow> tr1)"

subsection \<open>Index-based discovery: \<open>get_sitemap_urls\<close>\<close>

text \<open>
  The Python set \<open>urls\<close> is a list without repetitions; its elements are the \<open>text\<close>
  of \<open>loc\<close> elements, so \<open>None\<close> can be among them. \<open>urls.update(xs)\<close> is
  \<open>List.union xs urls\<close>. The order in which Python lists a set is not specified, and no
  statement below depends on the order chosen here. \<open>urls\<close> is mutated in place, so it is
  part of the state that survives an exception.
\<close>







subsection \<open>Paginated enumeration: \<open>get_all_posts_via_api\<close>\<close>

definition page_params :: "int \<Rightarrow> (string \<times> json) list" where
  "page_params page =
     [(''page'', JInt page), (''per_page'', JInt 100), (''status'', JStr ''publish''),
      (''_embed'', JInt 1)]"

definition posts_endpoint :: "migrator \<Rightarrow> url" where
  "posts_endpoint self = Url (source_url self @ ''/wp-json/wp/v2/posts'')"

text \<open>
  One pass through the \<open>try\<close> body of the \<open>while True\<close> loop, up to and including
  \<open>all_posts.extend(posts)\<close>: it raises, breaks, or yields the items to append.
\<close>

datatype 'a flow = Break | Continue 'a

definition fetch_page ::
  "migrator \<Rightarrow> int \<Rightarrow> event list \<Rightarrow> (exn + json list flow) \<times> event list" where
  "fetch_page self page tr =
     (case session_get self (posts_endpoint self) (page_params page) tr of
        (Inl e, tr1) \<Rightarrow> (Inl e, tr1)
      | (Inr r, tr1) \<Rightarrow>
          if status_code r = 400 then (Inr Break, tr1)
          else (case raise_for_status r of
                  Inl e \<Rightarrow> (Inl e, tr1)
                | Inr _ \<Rightarrow>
                    (case json_result r of
                       Inl e \<Rightarrow> (Inl e, tr1)
                     | Inr posts \<Rightarrow>
                         if \<not> truthy posts then (Inr Break, tr1)
                         else (case py_iter posts of
                                 Inl e \<Rightarrow> (Inl e, tr1)
                               | Inr items \<Rightarrow> (Inr (Continue items), tr1)))))"

text \<open>
  The loop has no bound of its own: it ends when the source answers with status 400, an
  empty page or an error. \<open>None\<close> is a run that never leaves the loop.
\<close>

partial_function (option) posts_loop ::
  "migrator \<Rightarrow> int \<Rightarrow> json list \<Rightarrow> event list \<Rightarrow> (json list \<times> event list) option" where
  "posts_loop self page all_posts tr =
     (case fetch_page self page tr of
        (Inl e, tr1) \<Rightarrow> Some (all_posts, tr1 @ [Log (Warn_fetching_page page e)])
      | (Inr Break, tr1) \<Rightarrow> Some (all_posts, tr1)
      | (Inr (Continue items), tr1) \<Rightarrow>
          posts_loop self (page + 1) (all_posts @ items) (tr1 @ [Sleep 1]))"

definition get_all_posts_via_api ::
  "migrator \<Rightarrow> event list \<Rightarrow> (json list \<times> event list) option" where
  "get_all_posts_via_api self tr = posts_loop self 1 [] (tr @ [Call Get_all_posts_via_api])"

subsection \<open>The orchestrator: \<open>migrate_content\<close>\<close>

text \<open>
  The statements both loops run for one item after it is known: create the record, read
  its \<open>id\<close>, handle the featured image, sleep one second.
\<close>

definition transfer_item ::
  "migrator \<Rightarrow> json \<Rightarrow> event list \<Rightarrow> (exn + unit) \<times> event list" where
  "transfer_item self post tr =
     (case create_post self post tr of
        (Inl e, tr1) \<Rightarrow> (Inl e, tr1)
      | (Inr new_post, tr1) \<Rightarrow>
          (case getitem new_post ''id'' of
             Inl e \<Rightarrow> (Inl e, tr1)
           | Inr new_post_id \<Rightarrow>
               (Inr (), handle_featured_image self post new_post_id tr1 @ [Sleep 1])))"





section \<open>Reading the trace\<close>

text \<open>The method entries of a trace, in order.\<close>

fun calls_of :: "event list \<Rightarrow> call list" where
  "calls_of [] = []"
| "calls_of (Call c # evs) = c # calls_of evs"
| "calls_of (Http rq # evs) = calls_of evs"
| "calls_of (Sleep n # evs) = calls_of evs"
| "calls_of (Log m # evs) = calls_of evs"

text \<open>The media operations: download, upload and link.\<close>

fun is_media_call :: "call \<Rightarrow> bool" where
  "is_media_call (Get_media u) = True"
| "is_media_call (Upload_media c f) = True"
| "is_media_call (Set_featured_image p m) = True"
| "is_media_call _ = False"

text \<open>
  What handling a featured image may enter for the record \<open>pid\<close>: nothing; a download
  and an upload of what the download returned; or those two, with non-empty content, and
  then a link of the uploaded medium to \<open>pid\<close>.
\<close>

definition media_steps :: "migrator \<Rightarrow> json \<Rightarrow> call list \<Rightarrow> bool" where
  "media_steps self pid cs \<longleftrightarrow>
     cs = []
     \<or> (\<exists>u t f. cs = [Get_media u, Upload_media (fst (get_media self u t)) f])
     \<or> (\<exists>u t f m. cs = [Get_media u, Upload_media (fst (get_media self u t)) f,
                         Set_featured_image pid m]
           \<and> fst (get_media self u t) \<noteq> None \<and> fst (get_media self u t) \<noteq> Some [])"




section \<open>Example sites and items\<close>

definition json_response :: "int \<Rightarrow> json \<Rightarrow> response" where
  "json_response st v =
     \<lparr>status_code = st, content = [], json_result = Inr v, xml_result = Inl ParseError\<rparr>"

definition bytes_response :: "string \<Rightarrow> response" where
  "bytes_response b =
     \<lparr>status_code = 200, content = b, json_result = Inl JSONDecodeError,
      xml_result = Inl ParseError\<rparr>"


definition sample_post :: json where
  "sample_post =
     JDict [(''title'', JDict [(''rendered'', JStr ''Hello'')]),
            (''content'', JDict [(''rendered'', JStr ''Hi'')]),
            (''slug'', JStr ''hello''),
            (''_embedded'', JDict [(''wp:featuredmedia'',
               JList [JDict [(''source_url'', JStr ''https://src.example/up/a.png'')]])])]"

text \<open>An item whose embedded featured-media entry has no \<open>source_url\<close>.\<close>

definition post_without_source_url :: json where
  "post_without_source_url =
     JDict [(''title'', JDict [(''rendered'', JStr ''Hello'')]),
            (''content'', JDict [(''rendered'', JStr ''Hi'')]),
            (''slug'', JStr ''hello''),
            (''_embedded'', JDict [(''wp:featuredmedia'', JList [JDict [(''id'', JInt 5)]])])]"

text \<open>
  A destination that accepts everything (records get id 7, media id 9) and a source that
  serves every media URL.
\<close>

definition accepting_destination :: "request \<Rightarrow> exn + response" where
  "accepting_destination rq =
     (if req_url rq = Url ''https://dst.example/wp-json/wp/v2/media''
      then Inr (json_response 201 (JDict [(''id'', JInt 9)]))
      else Inr (json_response 201 (JDict [(''id'', JInt 7)])))"


text \<open>The same destination, with a source whose media cannot be fetched.\<close>

definition offline_media_site :: migrator where
  "offline_media_site =
     WordPressMigrator ''https://src.example/'' ''https://dst.example/'' ''admin'' ''secret''
       (\<lambda>t rq. if req_method rq = POST then accepting_destination rq
               else Inl RequestException)"

text \<open>A destination that answers every request with status 500.\<close>

definition failing_destination_site :: migrator where
  "failing_destination_site =
     WordPressMigrator ''https://src.example/'' ''https://dst.example/'' ''admin'' ''secret''
       (\<lambda>t rq. if req_method rq = POST then Inr (json_response 500 JNull)
               else Inr (bytes_response ''PNG''))"

section \<open>Sources that serve pages\<close>

text \<open>The request for page \<open>p\<close> of the listing.\<close>

definition page_request :: "migrator \<Rightarrow> int \<Rightarrow> request" where
  "page_request self p = get_request (posts_endpoint self) (page_params p)"

text \<open>
  The source serves the pages \<open>pgs\<close> from page \<open>p\<close> on: whenever it is asked for one of
  them it answers with status 200 and the page's items, and none of them is empty.
\<close>

fun serves_pages :: "migrator \<Rightarrow> int \<Rightarrow> json list list \<Rightarrow> bool" where
  "serves_pages self p [] = True"
| "serves_pages self p (pg # pgs) =
     (pg \<noteq> []
      \<and> (\<forall>t. \<exists>r. session self t (page_request self p) = Inr r
                \<and> status_code r = 200 \<and> json_result r = Inr (JList pg))
      \<and> serves_pages self (p + 1) pgs)"

text \<open>The requests for \<open>n\<close> pages from page \<open>p\<close> on, each followed by the one-second sleep.\<close>

fun page_events :: "migrator \<Rightarrow> int \<Rightarrow> nat \<Rightarrow> event list" where
  "page_events self p 0 = []"
| "page_events self p (Suc n) = Http (page_request self p) # Sleep 1 # page_events self (p + 1) n"

text \<open>A source with two pages of 100 items each; every later page is empty.\<close>

definition three_page_site :: migrator where
  "three_page_site =
     WordPressMigrator ''https://src.example/'' ''https://dst.example/'' ''admin'' ''secret''
       (\<lambda>t rq. if map_of (req_params rq) ''page'' = Some (JInt 1)
                  \<or> map_of (req_params rq) ''page'' = Some (JInt 2)
               then Inr (json_response 200 (JList (replicate 100 sample_post)))
               else Inr (json_response 200 (JList [])))"


section \<open>Index documents and what is read from them\<close>









section \<open>Example sources with index documents\<close>









section \<open>Properties of the string operations\<close>

text \<open>On a character literal, adding 32 to an upper-case code point sets bit 5.\<close>

lemma lower_char_Char:
  "lower_char (Char b0 b1 b2 b3 b4 b5 b6 b7) =
     (let n = (of_char (Char b0 b1 b2 b3 b4 b5 b6 b7) :: nat)
      in if (65 \<le> n \<and> n \<le> 90) \<or> (192 \<le> n \<and> n \<le> 222 \<and> n \<noteq> 215)
         then Char b0 b1 b2 b3 b4 True b6 b7 else Char b0 b1 b2 b3 b4 b5 b6 b7)"
  by (cases b0; cases b1; cases b2; cases b3; cases b4; cases b5; cases b6; cases b7;
      simp add: lower_char_def char_of_def bit_Suc_0_iff)

lemma split_aux_nonempty: "split_aux sep acc s \<noteq> []"
  by (induction sep acc s rule: split_aux.induct) simp_all

lemma split_aux_no_sep:
  "d \<notin> set s \<Longrightarrow> split_aux [d] acc s = [rev acc @ s]"
  by (induction s arbitrary: acc) simp_all

lemma split_aux_last_sep:
  "d \<in> set s \<Longrightarrow>
     \<exists>pre. s = pre @ [d] @ last (split_aux [d] acc s) \<and> d \<notin> set (last (split_aux [d] acc s))"
proof (induction s arbitrary: acc)
  case Nil
  then show ?case by simp
next
  case (Cons c cs)
  show ?case
  proof (cases "d \<in> set cs")
    case True
    from Cons.IH [OF True, of "[]"] obtain p1 where
      p1: "cs = p1 @ [d] @ last (split_aux [d] [] cs)" "d \<notin> set (last (split_aux [d] [] cs))"
      by blast
    from Cons.IH [OF True, of "c # acc"] obtain p2 where
      p2: "cs = p2 @ [d] @ last (split_aux [d] (c # acc) cs)"
          "d \<notin> set (last (split_aux [d] (c # acc) cs))"
      by blast
    show ?thesis
    proof (cases "c = d")
      case True
      with p1 have "c # cs = (c # p1) @ [d] @ last (split_aux [d] acc (c # cs))"
        by (simp add: split_aux_nonempty)
      moreover from True p1 have "d \<notin> set (last (split_aux [d] acc (c # cs)))"
        by (simp add: split_aux_nonempty)
      ultimately show ?thesis by blast
    next
      case False
      with p2 have "c # cs = (c # p2) @ [d] @ last (split_aux [d] acc (c # cs))"
        by simp
      moreover from False p2 have "d \<notin> set (last (split_aux [d] acc (c # cs)))"
        by simp
      ultimately show ?thesis by blast
    qed
  next
    case False
    with Cons.prems have cd: "c = d" by simp
    from False have "split_aux [d] [] cs = [cs]"
      using split_aux_no_sep [of d cs "[]"] by simp
    with cd False have "last (split_aux [d] acc (c # cs)) = cs" by simp
    with cd False have "c # cs = [] @ [d] @ last (split_aux [d] acc (c # cs))
        \<and> d \<notin> set (last (split_aux [d] acc (c # cs)))"
      by simp
    then show ?thesis by blast
  qed
qed

lemma lower_char_dot: "lower_char c = CHR ''.'' \<longleftrightarrow> c = CHR ''.''"
proof
  assume l: "lower_char c = CHR ''.''"
  show "c = CHR ''.''"
  proof (rule ccontr)
    assume n: "c \<noteq> CHR ''.''"
    with l have "char_of (of_char c + 32 :: nat) = CHR ''.''"
      and r: "(65 \<le> (of_char c :: nat) \<and> (of_char c :: nat) \<le> 90)
              \<or> (192 \<le> (of_char c :: nat) \<and> (of_char c :: nat) \<le> 222)"
      by (auto simp: lower_char_def Let_def split: if_splits)
    then have "(of_char (char_of (of_char c + 32 :: nat) :: char) :: nat) = of_char (CHR ''.'')"
      by simp
    then have "(of_char c + 32 :: nat) mod 256 = 46" by simp
    with r show False by (auto simp: mod_if split: if_splits)
  qed
next
  assume "c = CHR ''.''"
  then show "lower_char c = CHR ''.''" by (simp add: lower_char_def)
qed

lemma py_lower_dot: "CHR ''.'' \<in> set (py_lower s) \<longleftrightarrow> CHR ''.'' \<in> set s"
  unfolding py_lower_def
  by (induction s) (simp_all add: lower_char_dot eq_commute [of "CHR ''.''"])

section \<open>Claims about content types\<close>

text \<open>
  C9. For every filename, \<open>get_content_type\<close> looks the lowercased text after the last
  dot up in the six-entry table (jpg and jpeg to image/jpeg, png to image/png, gif to
  image/gif, webp to image/webp, pdf to application/pdf) and answers
  application/octet-stream for every other extension; when the filename has no dot the
  whole lowercased filename is the extension, so the file named png gets image/png.
\<close>

theorem get_content_type_table:
  "\<exists>ext. (if CHR ''.'' \<in> set filename
          then (\<exists>pre. py_lower filename = pre @ ''.'' @ ext) \<and> CHR ''.'' \<notin> set ext
          else ext = py_lower filename)
       \<and> length content_types = 6
       \<and> get_content_type filename =
           (if ext = ''jpg'' \<or> ext = ''jpeg'' then ''image/jpeg''
            else if ext = ''png'' then ''image/png''
            else if ext = ''gif'' then ''image/gif''
            else if ext = ''webp'' then ''image/webp''
            else if ext = ''pdf'' then ''application/pdf''
            else ''application/octet-stream'')"
proof -
  define ext where "ext = last (py_split (py_lower filename) ''.'')"
  have shape: "if CHR ''.'' \<in> set filename
      then (\<exists>pre. py_lower filename = pre @ ''.'' @ ext) \<and> CHR ''.'' \<notin> set ext
      else ext = py_lower filename"
  proof (cases "CHR ''.'' \<in> set filename")
    case True
    then have "CHR ''.'' \<in> set (py_lower filename)" by (simp add: py_lower_dot)
    from split_aux_last_sep [OF this, of "[]"] True show ?thesis
      by (simp add: ext_def py_split_def)
  next
    case False
    then have "CHR ''.'' \<notin> set (py_lower filename)" by (simp add: py_lower_dot)
    from split_aux_no_sep [OF this, of "[]"] False show ?thesis
      by (simp add: ext_def py_split_def)
  qed
  have table: "get_content_type filename =
           (if ext = ''jpg'' \<or> ext = ''jpeg'' then ''image/jpeg''
            else if ext = ''png'' then ''image/png''
            else if ext = ''gif'' then ''image/gif''
            else if ext = ''webp'' then ''image/webp''
            else if ext = ''pdf'' then ''application/pdf''
            else ''application/octet-stream'')"
    by (simp add: get_content_type_def ext_def [symmetric] content_types_def)
  have "length content_types = 6" by (simp add: content_types_def)
  with shape table show ?thesis by blast
qed

theorem get_content_type_table_witness:
  "CHR ''.'' \<notin> set ''png'' \<and> get_content_type ''png'' = ''image/png''
   \<and> get_content_type ''Photo.JPG'' = ''image/jpeg''"
proof -
  from get_content_type_table [of "''png''"] have "get_content_type ''png'' = ''image/png''"
    by (simp add: py_lower_def lower_char_Char)
  moreover have "get_content_type ''Photo.JPG'' = ''image/jpeg''"
    by (simp add: get_content_type_def py_split_def py_lower_def lower_char_Char
        content_types_def)
  ultimately show ?thesis by simp
qed

section \<open>Which methods a method enters\<close>

lemma calls_of_append [simp]: "calls_of (xs @ ys) = calls_of xs @ calls_of ys"
  by (induction xs rule: calls_of.induct) simp_all

lemma create_post_calls:
  "create_post self post tr = (res, tr') \<Longrightarrow>
     \<exists>evs. tr' = tr @ evs \<and> calls_of evs = [Create_post post]"
  by (auto simp: create_post_def create_post_body_def session_post_def
      split: sum.splits prod.splits)

lemma get_media_calls:
  "get_media self u tr = (res, tr') \<Longrightarrow> \<exists>evs. tr' = tr @ evs \<and> calls_of evs = [Get_media u]"
  by (auto simp: get_media_def session_get_def split: sum.splits prod.splits)

lemma upload_media_calls:
  "upload_media self c f tr = (res, tr') \<Longrightarrow>
     \<exists>evs. tr' = tr @ evs \<and> calls_of evs = [Upload_media c f]"
  by (auto simp: upload_media_def upload_media_body_def session_post_def
      split: sum.splits prod.splits option.splits if_splits)

lemma set_featured_image_calls:
  "set_featured_image self p m tr = (res, tr') \<Longrightarrow>
     \<exists>evs. tr' = tr @ evs \<and> calls_of evs = [Set_featured_image p m]"
  by (auto simp: set_featured_image_def session_post_def split: sum.splits prod.splits)

lemma upload_media_no_content:
  "c = None \<or> c = Some [] \<Longrightarrow> fst (upload_media self c f tr) = Inl ValueError"
  by (auto simp: upload_media_def upload_media_body_def)

lemma handle_featured_image_body_media:
  assumes "has_featured_media post = Inr True"
    and "bind_exn (bind_exn (featured_media_info post) (\<lambda>info. getitem info ''source_url''))
           media_filename = Inr (u, f)"
    and "get_media self u (tr @ [Log (Downloading_media f)]) = (mc, tr1)"
    and "upload_media self mc f (tr1 @ [Log (Uploading_media f)]) = (up, tr2)"
  shows "handle_featured_image_body self post pid tr =
           (case up of
              Inl e \<Rightarrow> (Inl e, tr2)
            | Inr v \<Rightarrow>
                (case getitem v ''id'' of
                   Inl e \<Rightarrow> (Inl e, tr2)
                 | Inr m \<Rightarrow> (Inr (), snd (set_featured_image self pid m tr2))))"
  using assms by (simp add: handle_featured_image_body_def)

lemma media_steps_none: "media_steps self pid []"
  by (simp add: media_steps_def)

lemma media_steps_upload:
  "media_steps self pid [Get_media u, Upload_media (fst (get_media self u t)) f]"
  unfolding media_steps_def by blast

lemma media_steps_link:
  "fst (get_media self u t) \<noteq> None \<Longrightarrow> fst (get_media self u t) \<noteq> Some [] \<Longrightarrow>
     media_steps self pid
       [Get_media u, Upload_media (fst (get_media self u t)) f, Set_featured_image pid m]"
  unfolding media_steps_def by blast

text \<open>
  The effective handler enters \<open>get_media\<close> and \<open>upload_media\<close> together or not at all,
  and \<open>set_featured_image\<close> only after an upload of non-empty content, with the record
  id it was given.
\<close>

lemma handle_featured_image_body_calls:
  assumes "handle_featured_image_body self post pid tr = (res, tr')"
  shows "\<exists>evs. tr' = tr @ evs \<and> media_steps self pid (calls_of evs)"
proof (cases "has_featured_media post")
  case (Inl e)
  with assms have "tr' = tr @ []" by (simp add: handle_featured_image_body_def)
  then show ?thesis using media_steps_none by fastforce
next
  case hfm: (Inr b)
  show ?thesis
  proof (cases b)
    case False
    with hfm assms have "tr' = tr @ []" by (simp add: handle_featured_image_body_def)
    then show ?thesis using media_steps_none by fastforce
  next
    case True
    show ?thesis
    proof (cases "bind_exn (bind_exn (featured_media_info post)
                    (\<lambda>info. getitem info ''source_url'')) media_filename")
      case (Inl e)
      with hfm True assms have "tr' = tr @ []" by (simp add: handle_featured_image_body_def)
      then show ?thesis using media_steps_none by fastforce
    next
      case src: (Inr uf)
      obtain u f where uf: "uf = (u, f)" by (cases uf)
      define t where "t = tr @ [Log (Downloading_media f)]"
      obtain mc tr1 where gm: "get_media self u t = (mc, tr1)"
        by (cases "get_media self u t")
      obtain up tr2 where um: "upload_media self mc f (tr1 @ [Log (Uploading_media f)]) = (up, tr2)"
        by (cases "upload_media self mc f (tr1 @ [Log (Uploading_media f)])")
      from get_media_calls [OF gm] obtain e1 where
        e1: "tr1 = t @ e1" "calls_of e1 = [Get_media u]" by blast
      from upload_media_calls [OF um] obtain e2 where
        e2: "tr2 = (tr1 @ [Log (Uploading_media f)]) @ e2" "calls_of e2 = [Upload_media mc f]"
        by blast
      define evs where "evs = [Log (Downloading_media f)] @ e1 @ [Log (Uploading_media f)] @ e2"
      have tr2: "tr2 = tr @ evs" using e1 e2 by (simp add: evs_def t_def)
      have c2: "calls_of evs = [Get_media u, Upload_media (fst (get_media self u t)) f]"
        using e1 e2 gm by (simp add: evs_def)
      have body: "handle_featured_image_body self post pid tr =
           (case up of
              Inl e \<Rightarrow> (Inl e, tr2)
            | Inr v \<Rightarrow>
                (case getitem v ''id'' of
                   Inl e \<Rightarrow> (Inl e, tr2)
                 | Inr m \<Rightarrow> (Inr (), snd (set_featured_image self pid m tr2))))"
        using hfm True src uf gm um
        by (intro handle_featured_image_body_media) (simp_all add: t_def)
      show ?thesis
      proof (cases "bind_exn up (\<lambda>v. getitem v ''id'')")
        case (Inl e)
        with body assms have "tr' = tr2"
          by (cases up) (auto simp: bind_exn_def)
        then have "tr' = tr @ evs \<and> media_steps self pid (calls_of evs)"
          using tr2 c2 media_steps_upload [of self pid u t f] by simp
        then show ?thesis by (rule exI)
      next
        case (Inr m)
        then obtain v where up: "up = Inr v" and m: "getitem v ''id'' = Inr m"
          by (cases up) (simp_all add: bind_exn_def)
        have content: "mc \<noteq> None \<and> mc \<noteq> Some []"
        proof (rule ccontr)
          assume "\<not> (mc \<noteq> None \<and> mc \<noteq> Some [])"
          then have "mc = None \<or> mc = Some []" by blast
          from upload_media_no_content [OF this, of self f "tr1 @ [Log (Uploading_media f)]"]
          show False using um up by simp
        qed
        obtain r3 tr3 where sf: "set_featured_image self pid m tr2 = (r3, tr3)"
          by (cases "set_featured_image self pid m tr2")
        from set_featured_image_calls [OF sf] obtain e3 where
          e3: "tr3 = tr2 @ e3" "calls_of e3 = [Set_featured_image pid m]" by blast
        from body assms up m sf have "tr' = tr3" by simp
        with tr2 e3 have 1: "tr' = tr @ (evs @ e3)" by simp
        have 2: "calls_of (evs @ e3) =
            [Get_media u, Upload_media (fst (get_media self u t)) f, Set_featured_image pid m]"
          using c2 e3 by simp
        have "fst (get_media self u t) \<noteq> None" "fst (get_media self u t) \<noteq> Some []"
          using content gm by simp_all
        from media_steps_link [OF this, of pid f m] 1 2
        have "tr' = tr @ (evs @ e3) \<and> media_steps self pid (calls_of (evs @ e3))" by simp
        then show ?thesis by (rule exI)
      qed
    qed
  qed
qed

lemma handle_featured_image_calls:
  "\<exists>evs. handle_featured_image self post pid tr = tr @ evs \<and>
     (\<exists>cs. calls_of evs = Handle_featured_image post pid # cs \<and> media_steps self pid cs)"
proof -
  define t0 where "t0 = tr @ [Call (Handle_featured_image post pid)]"
  obtain res tr1 where b: "handle_featured_image_body self post pid t0 = (res, tr1)"
    by (cases "handle_featured_image_body self post pid t0")
  from handle_featured_image_body_calls [OF b] obtain evs where
    evs: "tr1 = t0 @ evs" "media_steps self pid (calls_of evs)"
    by blast
  define w where "w = (case res of Inl e \<Rightarrow> [Log (Warn_featured_image e)] | Inr _ \<Rightarrow> [])"
  define evs' where "evs' = [Call (Handle_featured_image post pid)] @ evs @ w"
  have "handle_featured_image self post pid tr =
      (case res of Inl e \<Rightarrow> tr1 @ [Log (Warn_featured_image e)] | Inr _ \<Rightarrow> tr1)"
    using b by (simp add: handle_featured_image_def t0_def)
  then have eq: "handle_featured_image self post pid tr = tr @ evs'"
    using evs(1) by (cases res) (simp_all add: evs'_def t0_def w_def)
  have c: "calls_of evs' = Handle_featured_image post pid # calls_of evs"
    by (cases res) (simp_all add: evs'_def w_def)
  from eq c evs(2) show ?thesis by blast
qed

lemma media_steps_link_id:
  "media_steps self pid cs \<Longrightarrow> Set_featured_image p m \<in> set cs \<Longrightarrow> p = pid"
  by (auto simp: media_steps_def)



section \<open>Claims about the transfer of one item\<close>

text \<open>
  C10. Every call of \<open>upload_media\<close> with \<open>None\<close> or with empty content raises
  \<open>ValueError\<close> before any request is issued: the trace gains the entry into the method
  and the error message of its handler, and no request. So the \<open>None\<close> that
  \<open>get_media\<close> returns after a failed download never reaches the destination as an
  upload.
\<close>

theorem upload_media_rejects_empty_content:
  assumes "media_content = None \<or> media_content = Some []"
  shows "upload_media self media_content filename tr =
     (Inl ValueError,
      tr @ [Call (Upload_media media_content filename), Log (Error_uploading_media ValueError)])"
  using assms by (auto simp: upload_media_def upload_media_body_def)

theorem upload_media_rejects_empty_content_witness:
  "fst (get_media offline_media_site ''https://src.example/up/a.png'' []) = None
   \<and> upload_media offline_media_site
        (fst (get_media offline_media_site ''https://src.example/up/a.png'' [])) ''a.png'' [] =
       (Inl ValueError,
        [Call (Upload_media None ''a.png''), Log (Error_uploading_media ValueError)])"
proof -
  have n: "fst (get_media offline_media_site ''https://src.example/up/a.png'' []) = None"
    by (simp add: get_media_def session_get_def get_request_def offline_media_site_def
        WordPressMigrator_def)
  then have "fst (get_media offline_media_site ''https://src.example/up/a.png'' []) = None
      \<or> fst (get_media offline_media_site ''https://src.example/up/a.png'' []) = Some []"
    by simp
  from upload_media_rejects_empty_content [OF this, of offline_media_site "''a.png''" "[]"] n
  show ?thesis by simp
qed

text \<open>
  C4. The claim reads: the effective featured-image handler is the null-checking one, so
  for a post whose embedded featured-media entry has no source URL it returns after an
  explicit check, without download, upload or link and without a featured-image warning.
  The method that is in effect is the later definition, which has no such check: on
  \<open>post_without_source_url\<close> the lookup of \<open>source_url\<close> raises \<open>KeyError\<close> and the
  handler logs the featured-image warning. The earlier definition, which the later one
  shadows, returns silently on the same post.
\<close>

theorem effective_handler_warns_without_source_url:
  "handle_featured_image self post_without_source_url pid tr =
     tr @ [Call (Handle_featured_image post_without_source_url pid),
           Log (Warn_featured_image KeyError)]
   \<and> handle_featured_image_first self post_without_source_url pid tr =
     tr @ [Call (Handle_featured_image post_without_source_url pid)]"
  by (simp add: handle_featured_image_def handle_featured_image_body_def
      handle_featured_image_first_def handle_featured_image_first_body_def
      has_featured_media_def featured_media_info_def bind_exn_def post_without_source_url_def)

text \<open>
  C2. For every item, the events of \<open>transfer_item\<close> are those of \<open>create_post\<close>
  followed by the rest. \<open>create_post\<close> enters no media operation. Every media
  operation (download, upload, link) in the rest comes after a \<open>create_post\<close> that
  returned a record with an \<open>id\<close>, and a link is entered with that \<open>id\<close> only. When
  \<open>create_post\<close> raises, the rest is empty and the item fails with the same exception.
\<close>

theorem media_only_after_create:
  "\<exists>evs1 evs2.
     snd (create_post self post tr) = tr @ evs1
     \<and> snd (transfer_item self post tr) = tr @ evs1 @ evs2
     \<and> calls_of evs1 = [Create_post post]
     \<and> (\<forall>c \<in> set (calls_of evs2). is_media_call c \<longrightarrow>
          (\<exists>new_post pid. fst (create_post self post tr) = Inr new_post
             \<and> getitem new_post ''id'' = Inr pid
             \<and> (\<forall>p m. c = Set_featured_image p m \<longrightarrow> p = pid)))
     \<and> (\<forall>e. fst (create_post self post tr) = Inl e \<longrightarrow>
          evs2 = [] \<and> fst (transfer_item self post tr) = Inl e)"
proof -
  obtain r tr1 where cp: "create_post self post tr = (r, tr1)"
    by (cases "create_post self post tr")
  from create_post_calls [OF cp] obtain evs1 where
    evs1: "tr1 = tr @ evs1" "calls_of evs1 = [Create_post post]" by blast
  define evs2 where "evs2 = drop (length tr1) (snd (transfer_item self post tr))"
  have failed: "snd (transfer_item self post tr) = tr1 \<and> evs2 = []"
    if "bind_exn r (\<lambda>np. getitem np ''id'') = Inl e" for e
    using that cp by (cases r) (auto simp: transfer_item_def bind_exn_def evs2_def)
  have rest: "snd (transfer_item self post tr) = tr1 @ evs2
      \<and> (\<forall>c \<in> set (calls_of evs2). is_media_call c \<longrightarrow>
          (\<exists>new_post pid. r = Inr new_post \<and> getitem new_post ''id'' = Inr pid
             \<and> (\<forall>p m. c = Set_featured_image p m \<longrightarrow> p = pid)))"
  proof (cases "bind_exn r (\<lambda>np. getitem np ''id'')")
    case (Inl e)
    from failed [OF this] show ?thesis by simp
  next
    case (Inr pid)
    then obtain np where np: "r = Inr np" "getitem np ''id'' = Inr pid"
      by (cases r) (simp_all add: bind_exn_def)
    from handle_featured_image_calls [of self post pid tr1] obtain evs cs where
      h: "handle_featured_image self post pid tr1 = tr1 @ evs"
         "calls_of evs = Handle_featured_image post pid # cs" "media_steps self pid cs"
      by blast
    have t: "snd (transfer_item self post tr) = tr1 @ evs @ [Sleep 1]"
      using cp np h(1) by (simp add: transfer_item_def)
    then have e2: "evs2 = evs @ [Sleep 1]" by (simp add: evs2_def)
    have "\<forall>c \<in> set (calls_of evs2). is_media_call c \<longrightarrow>
        (\<forall>p m. c = Set_featured_image p m \<longrightarrow> p = pid)"
      using h(2,3) e2 by (auto dest: media_steps_link_id)
    with np t e2 show ?thesis by auto
  qed
  have main: "snd (create_post self post tr) = tr @ evs1
     \<and> snd (transfer_item self post tr) = tr @ evs1 @ evs2
     \<and> calls_of evs1 = [Create_post post]
     \<and> (\<forall>c \<in> set (calls_of evs2). is_media_call c \<longrightarrow>
          (\<exists>new_post pid. fst (create_post self post tr) = Inr new_post
             \<and> getitem new_post ''id'' = Inr pid
             \<and> (\<forall>p m. c = Set_featured_image p m \<longrightarrow> p = pid)))
     \<and> (\<forall>e. fst (create_post self post tr) = Inl e \<longrightarrow>
          evs2 = [] \<and> fst (transfer_item self post tr) = Inl e)"
  proof (intro conjI allI impI)
    show "snd (create_post self post tr) = tr @ evs1" using cp evs1 by simp
    show "snd (transfer_item self post tr) = tr @ evs1 @ evs2" using rest evs1 by simp
    show "calls_of evs1 = [Create_post post]" by (rule evs1(2))
    show "\<forall>c \<in> set (calls_of evs2). is_media_call c \<longrightarrow>
          (\<exists>new_post pid. fst (create_post self post tr) = Inr new_post
             \<and> getitem new_post ''id'' = Inr pid
             \<and> (\<forall>p m. c = Set_featured_image p m \<longrightarrow> p = pid))"
      using rest cp by simp
  next
    fix e assume "fst (create_post self post tr) = Inl e"
    with cp have r: "r = Inl e" by simp
    then have "bind_exn r (\<lambda>np. getitem np ''id'') = Inl e" by (simp add: bind_exn_def)
    from failed [OF this] show "evs2 = []" by simp
    from cp r show "fst (transfer_item self post tr) = Inl e"
      by (simp add: transfer_item_def)
  qed
  show ?thesis by (rule exI [of _ evs1], rule exI [of _ evs2], rule main)
qed

lemma create_post_failing_destination:
  "create_post failing_destination_site sample_post [] =
     (Inl HTTPError,
      [Call (Create_post sample_post),
       Http (post_request failing_destination_site
               (Url ''https://dst.example/wp-json/wp/v2/posts'')
               [(''Content-Type'', ''application/json'')]
               (JsonBody (JDict
                  [(''title'', JStr ''Hello''), (''content'', JStr ''Hi''),
                   (''status'', JStr ''publish''), (''slug'', JStr ''hello''),
                   (''excerpt'', JStr []), (''categories'', JList []), (''tags'', JList []),
                   (''meta'', JDict []), (''date'', JNull), (''modified'', JNull)]))),
       Log (Error_creating_post HTTPError)])"
  by (simp add: create_post_def create_post_body_def new_post_payload_def bind_exn_def
      session_post_def failing_destination_site_def WordPressMigrator_def py_rstrip_slash_def
      json_response_def raise_for_status_def sample_post_def post_request_def)

theorem media_only_after_create_witness:
  "fst (create_post failing_destination_site sample_post []) = Inl HTTPError
   \<and> snd (transfer_item failing_destination_site sample_post []) =
       snd (create_post failing_destination_site sample_post [])
   \<and> calls_of (snd (transfer_item failing_destination_site sample_post [])) =
       [Create_post sample_post]"
proof -
  have f: "fst (create_post failing_destination_site sample_post []) = Inl HTTPError"
    by (simp add: create_post_failing_destination)
  from media_only_after_create [of failing_destination_site sample_post "[]"]
  obtain evs1 evs2 where
    a: "snd (create_post failing_destination_site sample_post []) = [] @ evs1"
    and b: "snd (transfer_item failing_destination_site sample_post []) = [] @ evs1 @ evs2"
    and c: "calls_of evs1 = [Create_post sample_post]"
    and d: "\<forall>e. fst (create_post failing_destination_site sample_post []) = Inl e \<longrightarrow>
          evs2 = [] \<and> fst (transfer_item failing_destination_site sample_post []) = Inl e"
    by (elim exE conjE) (rule that)
  from d f have "evs2 = []" by blast
  with a b c f show ?thesis by simp
qed




section \<open>The enumeration loop\<close>

lemma fetch_page_served:
  assumes "session self tr (page_request self p) = Inr r" "status_code r = 200"
    "json_result r = Inr (JList pg)" "pg \<noteq> []"
  shows "fetch_page self p tr = (Inr (Continue pg), tr @ [Http (page_request self p)])"
  using assms
  by (simp add: fetch_page_def session_get_def page_request_def raise_for_status_def)

lemma posts_loop_step:
  assumes "pg \<noteq> []"
    and "\<forall>t. \<exists>r. session self t (page_request self p) = Inr r
                \<and> status_code r = 200 \<and> json_result r = Inr (JList pg)"
  shows "posts_loop self p acc tr =
           posts_loop self (p + 1) (acc @ pg) (tr @ [Http (page_request self p), Sleep 1])"
proof -
  from assms(2) obtain r where
    "session self tr (page_request self p) = Inr r" "status_code r = 200"
    "json_result r = Inr (JList pg)" by blast
  from fetch_page_served [OF this assms(1)] show ?thesis
    by (subst posts_loop.simps) simp
qed

lemma posts_loop_served:
  "serves_pages self p pgs \<Longrightarrow>
     posts_loop self p acc tr =
       posts_loop self (p + int (length pgs)) (acc @ concat pgs)
         (tr @ page_events self p (length pgs))"
proof (induction pgs arbitrary: p acc tr)
  case Nil
  then show ?case by simp
next
  case (Cons pg pgs)
  from Cons.prems have pg: "pg \<noteq> []"
    and served: "\<forall>t. \<exists>r. session self t (page_request self p) = Inr r
                \<and> status_code r = 200 \<and> json_result r = Inr (JList pg)"
    and rest: "serves_pages self (p + 1) pgs"
    by simp_all
  have "posts_loop self p acc tr =
      posts_loop self (p + 1) (acc @ pg) (tr @ [Http (page_request self p), Sleep 1])"
    by (rule posts_loop_step [OF pg served])
  also have "\<dots> = posts_loop self (p + 1 + int (length pgs)) ((acc @ pg) @ concat pgs)
      ((tr @ [Http (page_request self p), Sleep 1]) @ page_events self (p + 1) (length pgs))"
    by (rule Cons.IH [OF rest])
  finally have step: "posts_loop self p acc tr =
      posts_loop self (p + 1 + int (length pgs)) ((acc @ pg) @ concat pgs)
        ((tr @ [Http (page_request self p), Sleep 1]) @ page_events self (p + 1) (length pgs))" .
  have e1: "p + 1 + int (length pgs) = p + int (length (pg # pgs))" by simp
  have e2: "(acc @ pg) @ concat pgs = acc @ concat (pg # pgs)" by simp
  have e3: "(tr @ [Http (page_request self p), Sleep 1]) @ page_events self (p + 1) (length pgs)
      = tr @ page_events self p (length (pg # pgs))" by simp
  from step show ?case unfolding e1 e2 e3 .
qed

lemma posts_loop_break:
  assumes "session self tr (page_request self p) = Inr r"
    and "status_code r = 400 \<or> (status_code r = 200 \<and> (\<exists>v. json_result r = Inr v \<and> \<not> truthy v))"
  shows "posts_loop self p acc tr = Some (acc, tr @ [Http (page_request self p)])"
proof -
  from assms have "fetch_page self p tr = (Inr Break, tr @ [Http (page_request self p)])"
    by (auto simp: fetch_page_def session_get_def page_request_def raise_for_status_def)
  then show ?thesis by (subst posts_loop.simps) simp
qed


section \<open>Claims about the paginated enumerator\<close>

text \<open>
  C6. \<open>get_all_posts_via_api\<close> asks for page 1, 2, ... with \<open>per_page\<close> 100. When the
  source serves the non-empty pages \<open>pgs\<close> and answers the request after them with
  status 400 or with an empty (false) value, the enumerator returns the items of \<open>pgs\<close>
  in order, as a normal result without a warning, after one request per page of \<open>pgs\<close>,
  each followed by a one-second sleep, and one last request. For two pages of 100 items
  and an empty third page these are 200 items, three requests and two sleeps.
\<close>

theorem enumeration_ends_at_last_page:
  assumes "serves_pages self 1 pgs"
    and "\<forall>t. \<exists>r. session self t (page_request self (1 + int (length pgs))) = Inr r
            \<and> (status_code r = 400
                \<or> (status_code r = 200 \<and> (\<exists>v. json_result r = Inr v \<and> \<not> truthy v)))"
  shows "get_all_posts_via_api self tr =
           Some (concat pgs,
                 tr @ [Call Get_all_posts_via_api] @ page_events self 1 (length pgs)
                    @ [Http (page_request self (1 + int (length pgs)))])
         \<and> page_request self p =
             get_request (Url (source_url self @ ''/wp-json/wp/v2/posts''))
               [(''page'', JInt p), (''per_page'', JInt 100), (''status'', JStr ''publish''),
                (''_embed'', JInt 1)]"
proof
  define t where "t = (tr @ [Call Get_all_posts_via_api]) @ page_events self 1 (length pgs)"
  from assms(2) obtain r where
    r: "session self t (page_request self (1 + int (length pgs))) = Inr r"
       "status_code r = 400
          \<or> (status_code r = 200 \<and> (\<exists>v. json_result r = Inr v \<and> \<not> truthy v))"
    by blast
  have "get_all_posts_via_api self tr =
      posts_loop self (1 + int (length pgs)) ([] @ concat pgs) t"
    unfolding get_all_posts_via_api_def t_def by (rule posts_loop_served [OF assms(1)])
  also have "\<dots> = Some ([] @ concat pgs, t @ [Http (page_request self (1 + int (length pgs)))])"
    by (rule posts_loop_break [OF r])
  finally show "get_all_posts_via_api self tr =
           Some (concat pgs,
                 tr @ [Call Get_all_posts_via_api] @ page_events self 1 (length pgs)
                    @ [Http (page_request self (1 + int (length pgs)))])"
    by (simp add: t_def)
  show "page_request self p =
             get_request (Url (source_url self @ ''/wp-json/wp/v2/posts''))
               [(''page'', JInt p), (''per_page'', JInt 100), (''status'', JStr ''publish''),
                (''_embed'', JInt 1)]"
    by (simp add: page_request_def posts_endpoint_def page_params_def)
qed

lemmas site_eval =
  WordPressMigrator_def py_rstrip_slash_def json_response_def page_request_def
  get_request_def page_params_def posts_endpoint_def

theorem enumeration_ends_at_last_page_witness:
  "\<exists>posts. get_all_posts_via_api three_page_site [] =
      Some (posts,
            [Call Get_all_posts_via_api,
             Http (page_request three_page_site 1), Sleep 1,
             Http (page_request three_page_site 2), Sleep 1,
             Http (page_request three_page_site 3)])
     \<and> length posts = 200"
proof -
  define pgs where "pgs = [replicate 100 sample_post, replicate 100 sample_post]"
  have s: "serves_pages three_page_site 1 pgs"
    by (simp add: pgs_def three_page_site_def site_eval)
  have l: "\<forall>t. \<exists>r. session three_page_site t (page_request three_page_site (1 + int (length pgs)))
             = Inr r
            \<and> (status_code r = 400
                \<or> (status_code r = 200 \<and> (\<exists>v. json_result r = Inr v \<and> \<not> truthy v)))"
    by (simp add: pgs_def three_page_site_def site_eval)
  from enumeration_ends_at_last_page [OF s l, of "[]"]
  have "get_all_posts_via_api three_page_site [] =
      Some (concat pgs,
            [Call Get_all_posts_via_api,
             Http (page_request three_page_site 1), Sleep 1,
             Http (page_request three_page_site 2), Sleep 1,
             Http (page_request three_page_site 3)])"
    by (simp add: pgs_def)
  moreover have "length (concat pgs) = 200" by (simp add: pgs_def)
  ultimately show ?thesis by blast
qed



section \<open>Which methods the discovery and the loops enter\<close>















section \<open>The index reader\<close>






















section \<open>Claims about discovery\<close>











end
